theory Spec2Isabelle
  imports Complex_Main "HOL-Library.Multiset" "HOL-Library.Char_ord" "HOL-Library.List_Lexorder"
begin

section \<open>The abalone preprocessing step\<close>

text \<open>
  The script \<^verbatim>\<open>pipelines/abalone/preprocess.py\<close> is one linear run: parse the
  \<^verbatim>\<open>--input-data\<close> argument, download and read the table, fit and apply the
  column transformer, shuffle and split the matrix, write the three blocks, and call the
  feature store. The steps are embedded below in that order of dependency, each as a
  function of its inputs. Library routines the script calls (\<^verbatim>\<open>str.split\<close>,
  \<^verbatim>\<open>np.split\<close>, \<^verbatim>\<open>np.random.shuffle\<close>, the scikit-learn transformers) are
  embedded by their documented behaviour.
\<close>

datatype error = IndexError | ValueError | NotFittedError

subsection \<open>The input-data argument\<close>

text \<open>
  Lines 65 to 67 cut the \<^verbatim>\<open>--input-data\<close> argument at every \<^verbatim>\<open>/\<close>: the bucket
  is \<^verbatim>\<open>input_data.split("/")[2]\<close> and the key is
  \<^verbatim>\<open>"/".join(input_data.split("/")[3:])\<close>. \<^verbatim>\<open>str.split\<close> with a separator keeps
  empty pieces, and indexing past the end of the list raises \<^verbatim>\<open>IndexError\<close>.
\<close>

fun split_on :: "char \<Rightarrow> string \<Rightarrow> string list" where
  "split_on sep [] = [[]]"
| "split_on sep (c # cs) =
     (if c = sep then [] # split_on sep cs
      else (case split_on sep cs of
              [] \<Rightarrow> [[c]]
            | piece # pieces \<Rightarrow> (c # piece) # pieces))"

fun join :: "string \<Rightarrow> string list \<Rightarrow> string" where
  "join sep [] = []"
| "join sep [piece] = piece"
| "join sep (piece # pieces) = piece @ sep @ join sep pieces"

definition bucket_and_key :: "string \<Rightarrow> error + (string \<times> string)" where
  "bucket_and_key input_data =
     (let parts = split_on CHR ''/'' input_data
      in if 2 < length parts then Inr (parts ! 2, join ''/'' (drop 3 parts))
         else Inl IndexError)"

subsection \<open>The table\<close>

text \<open>
  \<^verbatim>\<open>pd.read_csv\<close> (lines 75 to 80) yields one row per line of the file, typed by
  \<^verbatim>\<open>feature_columns_dtype\<close> and \<^verbatim>\<open>label_column_dtype\<close>; a missing field is
  \<^verbatim>\<open>NaN\<close>, here \<open>None\<close>. The \<^verbatim>\<open>float64\<close> values are embedded as reals: the
  rounding inside the transformers' arithmetic is outside this model.
\<close>

record abalone =
  sex :: "string option"
  length_col :: "real option"
  diameter :: "real option"
  height :: "real option"
  whole_weight :: "real option"
  shucked_weight :: "real option"
  viscera_weight :: "real option"
  shell_weight :: "real option"
  rings :: "real option"

definition feature_columns_names :: "string list" where
  "feature_columns_names =
     [''sex'', ''length'', ''diameter'', ''height'', ''whole_weight'', ''shucked_weight'',
      ''viscera_weight'', ''shell_weight'']"

definition label_column :: string where
  "label_column = ''rings''"

definition numeric_features :: "string list" where
  \<comment> \<open>lines 84 and 85: a copy of the list with the first \<^verbatim>\<open>"sex"\<close> removed\<close>
  "numeric_features = remove1 ''sex'' feature_columns_names"

definition categorical_features :: "string list" where
  "categorical_features = [''sex'']"

definition numeric_column :: "string \<Rightarrow> abalone \<Rightarrow> real option" where
  \<comment> \<open>the cell of a row in the \<^verbatim>\<open>float64\<close> column of that name\<close>
  "numeric_column name r =
     (if name = ''length'' then length_col r
      else if name = ''diameter'' then diameter r
      else if name = ''height'' then height r
      else if name = ''whole_weight'' then whole_weight r
      else if name = ''shucked_weight'' then shucked_weight r
      else if name = ''viscera_weight'' then viscera_weight r
      else if name = ''shell_weight'' then shell_weight r
      else if name = ''rings'' then rings r
      else None)"

subsection \<open>The feature transformer\<close>

text \<open>
  Lines 86 to 103 declare the transformer; nothing is computed until line 107. The numeric
  pipeline is \<^verbatim>\<open>SimpleImputer(strategy="median")\<close> followed by
  \<^verbatim>\<open>StandardScaler()\<close>. Both work on each column by itself, so the pipeline is embedded
  column by column:
  \<^item> the imputer's statistic of a column is the median of its observed (non-missing)
    values; a column with no observed value at fit has no statistic and is discarded by
    the imputer's transform;
  \<^item> the scaler is fitted on the imputed column: its mean, and its standard deviation
    (the square root of the population variance) as the scale, a zero scale being
    replaced by 1.
\<close>

fun observed :: "'a option list \<Rightarrow> 'a list" where
  "observed [] = []"
| "observed (None # vs) = observed vs"
| "observed (Some v # vs) = v # observed vs"

definition median :: "real list \<Rightarrow> real" where
  "median vs =
     (let s = sort vs; n = length s
      in if odd n then s ! (n div 2) else (s ! (n div 2 - 1) + s ! (n div 2)) / 2)"

definition mean :: "real list \<Rightarrow> real" where
  "mean vs = sum_list vs / real (length vs)"

definition variance :: "real list \<Rightarrow> real" where
  "variance vs = sum_list (map (\<lambda>v. (v - mean vs) ^ 2) vs) / real (length vs)"

definition impute :: "real \<Rightarrow> real option \<Rightarrow> real" where
  "impute fill v = (case v of None \<Rightarrow> fill | Some x \<Rightarrow> x)"

record column_fit =
  imputer_statistic :: real
  scaler_mean :: real
  scaler_scale :: real

definition fit_column :: "real option list \<Rightarrow> column_fit option" where
  "fit_column col =
     (if observed col = [] then None
      else (let fill = median (observed col);
                imputed = map (impute fill) col;
                s = sqrt (variance imputed)
            in Some \<lparr>imputer_statistic = fill, scaler_mean = mean imputed,
                     scaler_scale = (if s = 0 then 1 else s)\<rparr>))"

definition transform_cell :: "column_fit \<Rightarrow> real option \<Rightarrow> real" where
  "transform_cell f v = (impute (imputer_statistic f) v - scaler_mean f) / scaler_scale f"

text \<open>
  The categorical pipeline is \<^verbatim>\<open>SimpleImputer(strategy="constant", fill_value="missing")\<close>
  followed by \<^verbatim>\<open>OneHotEncoder(handle_unknown="ignore")\<close>: the encoder's categories
  are the distinct values of the imputed column in ascending order, and a value that is
  not among them is encoded by zeros.
\<close>

definition category :: "abalone \<Rightarrow> string" where
  "category r = (case sex r of None \<Rightarrow> ''missing'' | Some s \<Rightarrow> s)"

definition onehot :: "string list \<Rightarrow> string \<Rightarrow> real list" where
  "onehot cats v = map (\<lambda>c. if c = v then 1 else 0) cats"

text \<open>
  The \<^verbatim>\<open>ColumnTransformer\<close> stacks the numeric block and the one-hot block side by
  side. The one-hot block is a sparse matrix, so the stacked result is sparse when its
  density (stored entries over all entries) is below the default
  \<^verbatim>\<open>sparse_threshold\<close> of 0.3, and a dense array otherwise; the decision is taken at
  fit and kept. Fitting or transforming a table without rows raises \<^verbatim>\<open>ValueError\<close>, and
  so does fitting the scaler when the imputer has discarded every numeric column.
\<close>

record fitted =
  numeric_columns :: "column_fit option list"
  categories :: "string list"
  sparse_output :: bool

datatype matrix_out = Dense "real list list" | Sparse "real list list"

fun rows_of :: "matrix_out \<Rightarrow> real list list" where
  "rows_of (Dense rows) = rows"
| "rows_of (Sparse rows) = rows"

definition fit :: "abalone list \<Rightarrow> error + fitted" where
  "fit df =
     (if df = [] then Inl ValueError
      else (let cols = map (\<lambda>name. fit_column (map (numeric_column name) df)) numeric_features;
                kept = length (observed cols);
                cats = sort (remdups (map category df));
                n = length df;
                nnz = n * kept + n;
                total = n * kept + n * length cats
            in if kept = 0 then Inl ValueError
               else Inr \<lparr>numeric_columns = cols, categories = cats,
                         sparse_output = (real nnz / real total < 3 / 10)\<rparr>))"

definition numeric_part :: "fitted \<Rightarrow> abalone \<Rightarrow> real list" where
  "numeric_part p r =
     concat (map (\<lambda>(f, name). case f of None \<Rightarrow> []
                                | Some cf \<Rightarrow> [transform_cell cf (numeric_column name r)])
               (zip (numeric_columns p) numeric_features))"

definition transform_row :: "fitted \<Rightarrow> abalone \<Rightarrow> real list" where
  "transform_row p r = numeric_part p r @ onehot (categories p) (category r)"

definition transform_fitted :: "fitted \<Rightarrow> abalone list \<Rightarrow> error + matrix_out" where
  "transform_fitted p df =
     (if df = [] then Inl ValueError
      else Inr ((if sparse_output p then Sparse else Dense) (map (transform_row p) df)))"

text \<open>
  The transformer object is either unfitted or holds what \<open>fit\<close> has computed;
  \<^verbatim>\<open>fit_transform\<close> stores the fitted state, \<^verbatim>\<open>transform\<close> reads it.
\<close>

definition fit_transform ::
  "fitted option \<Rightarrow> abalone list \<Rightarrow> fitted option \<times> (error + matrix_out)" where
  "fit_transform preprocess df =
     (case fit df of
        Inl e \<Rightarrow> (preprocess, Inl e)
      | Inr p \<Rightarrow> (Some p, transform_fitted p df))"

definition transform ::
  "fitted option \<Rightarrow> abalone list \<Rightarrow> fitted option \<times> (error + matrix_out)" where
  "transform preprocess df =
     (case preprocess of
        None \<Rightarrow> (preprocess, Inl NotFittedError)
      | Some p \<Rightarrow> (preprocess, transform_fitted p df))"

text \<open>
  Lines 106 to 110: the label column is taken out of the table, the features are
  transformed, and the label is put in front of each transformed row.
  \<^verbatim>\<open>np.concatenate\<close> needs arrays: it raises on a sparse matrix.
\<close>

definition np_concatenate :: "real option list \<Rightarrow> matrix_out \<Rightarrow> error + real option list list" where
  "np_concatenate y_pre X_pre =
     (case X_pre of
        Sparse rows \<Rightarrow> Inl ValueError
      | Dense rows \<Rightarrow>
          if length y_pre \<noteq> length rows then Inl ValueError
          else Inr (map (\<lambda>(y, row). y # map Some row) (zip y_pre rows)))"

definition apply_transforms :: "abalone list \<Rightarrow> error + real option list list" where
  "apply_transforms df =
     (let y = map rings df
      in case snd (fit_transform None df) of
           Inl e \<Rightarrow> Inl e
         | Inr X_pre \<Rightarrow> np_concatenate y X_pre)"

subsection \<open>Double-precision cut points\<close>

text \<open>
  Line 114 computes the cut points as \<^verbatim>\<open>int(0.7 * len(X))\<close> and
  \<^verbatim>\<open>int(0.85 * len(X))\<close>: the length is converted to a double, multiplied by a double
  constant with one rounding (to nearest, ties to even, 53 significant bits), and then
  truncated. All values involved are non-negative and far from the subnormal and overflow
  ranges, so a double is represented here by a natural numerator over \<open>2 ^ 53\<close>.
\<close>

fun bit_length :: "nat \<Rightarrow> nat" where
  "bit_length n = (if n = 0 then 0 else Suc (bit_length (n div 2)))"

declare bit_length.simps [simp del]

definition round_half_even :: "nat \<Rightarrow> nat \<Rightarrow> nat" where
  \<comment> \<open>the multiple of \<open>2 ^ e\<close> nearest to \<open>a\<close>, a tie going to the even multiple\<close>
  "round_half_even e a =
     (let q = a div 2 ^ e; r = a mod 2 ^ e
      in if 2 * r > 2 ^ e \<or> (2 * r = 2 ^ e \<and> odd q) then (q + 1) * 2 ^ e else q * 2 ^ e)"

definition round53 :: "nat \<Rightarrow> nat" where
  \<comment> \<open>rounding to 53 significant bits\<close>
  "round53 a = round_half_even (bit_length a - 53) a"

definition double_0_7 :: nat where
  \<comment> \<open>the double literal \<^verbatim>\<open>0.7\<close> is \<open>0x1.6666666666666p-1\<close>, this numerator over \<open>2 ^ 53\<close>\<close>
  "double_0_7 = 6305039478318694"

definition double_0_85 :: nat where
  \<comment> \<open>the double literal \<^verbatim>\<open>0.85\<close> is \<open>0x1.b333333333333p-1\<close>, this numerator over \<open>2 ^ 53\<close>\<close>
  "double_0_85 = 7656119366529843"

definition int_of_product :: "nat \<Rightarrow> nat \<Rightarrow> nat" where
  \<comment> \<open>\<^verbatim>\<open>int(c * n)\<close> for the double \<open>c = m / 2 ^ 53\<close> and the Python int \<open>n\<close>\<close>
  "int_of_product m n = round53 (m * round53 n) div 2 ^ 53"

subsection \<open>Shuffle and split\<close>

text \<open>
  \<^verbatim>\<open>np.random.shuffle\<close> permutes the rows in place by the Fisher-Yates loop: for
  \<open>i\<close> from \<open>n - 1\<close> down to \<open>1\<close> it draws \<open>j\<close> in \<open>0..i\<close> and swaps rows \<open>i\<close> and
  \<open>j\<close>. No seed is set, so the draws are a parameter \<open>rng\<close> of the model.
\<close>

definition swap :: "nat \<Rightarrow> nat \<Rightarrow> 'a list \<Rightarrow> 'a list" where
  "swap i j xs = xs[i := xs ! j, j := xs ! i]"

fun shuffle_loop :: "(nat \<Rightarrow> nat) \<Rightarrow> nat \<Rightarrow> 'a list \<Rightarrow> 'a list" where
  "shuffle_loop rng 0 xs = xs"
| "shuffle_loop rng (Suc i) xs =
     shuffle_loop rng i (swap (Suc i) (rng (Suc i) mod Suc (Suc i)) xs)"

definition shuffle :: "(nat \<Rightarrow> nat) \<Rightarrow> 'a list \<Rightarrow> 'a list" where
  "shuffle rng xs = shuffle_loop rng (length xs - 1) xs"

text \<open>
  \<^verbatim>\<open>np.split(X, [i, j])\<close> with a list of indices returns the slices between consecutive
  division points \<open>0, i, j, len(X)\<close>; a slice \<^verbatim>\<open>X[a:b]\<close> clips at the end of the array
  and is empty when \<open>b \<le> a\<close>.
\<close>

definition py_slice :: "nat \<Rightarrow> nat \<Rightarrow> 'a list \<Rightarrow> 'a list" where
  "py_slice a b xs = drop a (take b xs)"

definition np_split :: "'a list \<Rightarrow> nat list \<Rightarrow> 'a list list" where
  "np_split xs indices =
     map (\<lambda>(a, b). py_slice a b xs) (zip (0 # indices) (indices @ [length xs]))"

fun unpack3 :: "'a list \<Rightarrow> error + ('a \<times> 'a \<times> 'a)" where
  \<comment> \<open>the tuple assignment \<^verbatim>\<open>train, validation, test = ...\<close>\<close>
  "unpack3 [a, b, c] = Inr (a, b, c)"
| "unpack3 _ = Inl ValueError"

definition split_rows :: "'a list \<Rightarrow> error + ('a list \<times> 'a list \<times> 'a list)" where
  \<comment> \<open>line 114\<close>
  "split_rows X =
     unpack3 (np_split X [int_of_product double_0_7 (length X),
                          int_of_product double_0_85 (length X)])"

definition shuffle_and_split ::
  "(nat \<Rightarrow> nat) \<Rightarrow> 'a list \<Rightarrow> error + ('a list \<times> 'a list \<times> 'a list)" where
  \<comment> \<open>lines 113 and 114\<close>
  "shuffle_and_split rng X = split_rows (shuffle rng X)"

subsection \<open>The feature-store calls\<close>

text \<open>
  Lines 123 to 126 build \<^verbatim>\<open>df_fs\<close>, the raw feature table with the time of the run
  in a new column \<^verbatim>\<open>EventTime\<close> (the label column has left the table at line 106, so
  the \<open>rings\<close> field of a row plays no part here). Lines 129 to 139 are the feature definitions passed
  to \<^verbatim>\<open>create_feature_group\<close>, and lines 164 to 177 are the call of
  \<^verbatim>\<open>put_record\<close>, whose \<^verbatim>\<open>Record\<close> argument is written out in the script.
\<close>

definition df_fs :: "abalone list \<Rightarrow> int \<Rightarrow> (abalone \<times> real) list" where
  "df_fs df current_time_sec = map (\<lambda>r. (r, real_of_int current_time_sec)) df"

definition feature_definition :: "(string \<times> string) list" where
  "feature_definition =
     [(''sex'', ''String''), (''length'', ''Fractional''), (''diameter'', ''Fractional''),
      (''height'', ''Fractional''), (''whole_weight'', ''Fractional''),
      (''shucked_weight'', ''Fractional''), (''viscera_weight'', ''Fractional''),
      (''shell_weight'', ''Fractional''), (''EventTime'', ''Fractional'')]"

definition put_record_Record :: "(abalone \<times> real) list \<Rightarrow> (string \<times> string) list" where
  \<comment> \<open>the pairs of \<^verbatim>\<open>FeatureName\<close> and \<^verbatim>\<open>ValueAsString\<close>; the table in scope is not read\<close>
  "put_record_Record fs =
     [(''sex'', ''String''), (''length'', ''11''), (''diameter'', ''11''), (''height'', ''11''),
      (''whole_weight'', ''11''), (''shucked_weight'', ''11''), (''viscera_weight'', ''11''),
      (''shell_weight'', ''11''), (''EventTime'', ''11'')]"

subsection \<open>Example rows\<close>

text \<open>Small tables for evaluating the model: rows with and without missing fields.\<close>

definition abalone_M :: abalone where
  "abalone_M = \<lparr>sex = Some ''M'', length_col = Some 1, diameter = Some 1, height = Some 1,
     whole_weight = Some 1, shucked_weight = Some 1, viscera_weight = Some 1,
     shell_weight = Some 1, rings = Some 15\<rparr>"

definition abalone_F :: abalone where
  "abalone_F = \<lparr>sex = Some ''F'', length_col = Some 3, diameter = Some 3, height = Some 3,
     whole_weight = Some 3, shucked_weight = Some 3, viscera_weight = Some 3,
     shell_weight = Some 3, rings = Some 7\<rparr>"

definition abalone_no_length :: abalone where
  "abalone_no_length = \<lparr>sex = Some ''I'', length_col = None, diameter = Some 2,
     height = Some 2, whole_weight = Some 2, shucked_weight = Some 2,
     viscera_weight = Some 2, shell_weight = Some 2, rings = Some 9\<rparr>"



definition fitted_M_F :: fitted where
  \<comment> \<open>what fitting the table of \<open>abalone_M\<close> and \<open>abalone_F\<close> computes\<close>
  "fitted_M_F =
     \<lparr>numeric_columns =
        replicate 7 (Some \<lparr>imputer_statistic = 2, scaler_mean = 2, scaler_scale = 1\<rparr>),
      categories = [''F'', ''M''], sparse_output = False\<rparr>"

section \<open>Auxiliary lemmas\<close>

lemma bit_length_0: "bit_length 0 = 0"
  by (simp add: bit_length.simps)

lemma bit_length_pos: "n \<noteq> 0 \<Longrightarrow> bit_length n = Suc (bit_length (n div 2))"
  by (subst bit_length.simps) simp

lemma bit_length_upper: "n < 2 ^ bit_length n"
proof (induction n rule: bit_length.induct)
  case (1 n)
  show ?case
  proof (cases "n = 0")
    case True
    then show ?thesis by (simp add: bit_length_0)
  next
    case False
    with 1 have "n div 2 < 2 ^ bit_length (n div 2)" by simp
    then have "n < 2 * 2 ^ bit_length (n div 2)" by linarith
    with False show ?thesis by (simp add: bit_length_pos)
  qed
qed

lemma bit_length_lower: "n \<noteq> 0 \<Longrightarrow> 2 ^ (bit_length n - 1) \<le> n"
proof (induction n rule: bit_length.induct)
  case (1 n)
  then have n: "n \<noteq> 0" by simp
  show ?case
  proof (cases "n div 2 = 0")
    case True
    with n show ?thesis by (simp add: bit_length_pos bit_length_0)
  next
    case False
    with 1 n have ih: "2 ^ (bit_length (n div 2) - 1) \<le> n div 2" by simp
    from False have "bit_length (n div 2) = Suc (bit_length (n div 2) - 1)"
      by (simp add: bit_length_pos)
    then have "(2::nat) ^ bit_length (n div 2) = 2 * 2 ^ (bit_length (n div 2) - 1)"
      by (metis power_Suc)
    with ih have "2 ^ bit_length (n div 2) \<le> n" by linarith
    with n show ?thesis by (simp add: bit_length_pos)
  qed
qed

lemma bit_length_le: "n < 2 ^ j \<Longrightarrow> bit_length n \<le> j"
proof (cases "n = 0")
  case True
  then show ?thesis by (simp add: bit_length_0)
next
  case False
  assume "n < 2 ^ j"
  with bit_length_lower [OF False] have "(2::nat) ^ (bit_length n - 1) < 2 ^ j" by linarith
  then have "bit_length n - 1 < j" by simp
  then show ?thesis by linarith
qed

lemma bit_length_mono: "a \<le> b \<Longrightarrow> bit_length a \<le> bit_length b"
  using bit_length_le [of a "bit_length b"] bit_length_upper [of b] by linarith

lemma round_half_even_lower: "(a div 2 ^ e) * 2 ^ e \<le> round_half_even e a"
  by (simp add: round_half_even_def Let_def)

lemma round_half_even_upper: "round_half_even e a \<le> (a div 2 ^ e + 1) * 2 ^ e"
  by (simp add: round_half_even_def Let_def)

lemma round_half_even_exact: "a mod 2 ^ e = 0 \<Longrightarrow> round_half_even e a = a"
  by (auto simp: round_half_even_def Let_def)

lemma round_half_even_ge: "k * 2 ^ e \<le> a \<Longrightarrow> k * 2 ^ e \<le> round_half_even e a"
proof -
  assume "k * 2 ^ e \<le> a"
  then have "k \<le> a div 2 ^ e" by (simp add: less_eq_div_iff_mult_less_eq)
  then have "k * 2 ^ e \<le> (a div 2 ^ e) * 2 ^ e" by (rule mult_le_mono1)
  with round_half_even_lower [of a e] show ?thesis by linarith
qed

lemma round_half_even_le: "a \<le> k * 2 ^ e \<Longrightarrow> round_half_even e a \<le> k * 2 ^ e"
proof (cases "a mod 2 ^ e = 0")
  case True
  assume "a \<le> k * 2 ^ e"
  with True show ?thesis by (simp add: round_half_even_exact)
next
  case False
  assume a: "a \<le> k * 2 ^ e"
  have "(a div 2 ^ e) * 2 ^ e + a mod 2 ^ e = a" by (rule div_mult_mod_eq)
  with False have "(a div 2 ^ e) * 2 ^ e < a" by linarith
  with a have "(a div 2 ^ e) * 2 ^ e < k * 2 ^ e" by linarith
  then have "a div 2 ^ e < k" by simp
  then have "a div 2 ^ e + 1 \<le> k" by simp
  then have "(a div 2 ^ e + 1) * 2 ^ e \<le> k * 2 ^ e" by (rule mult_le_mono1)
  with round_half_even_upper [of e a] show ?thesis by linarith
qed

lemma round_half_even_mono: "a \<le> b \<Longrightarrow> round_half_even e a \<le> round_half_even e b"
proof (cases "a div 2 ^ e = b div 2 ^ e")
  case True
  assume ab: "a \<le> b"
  have "(a div 2 ^ e) * 2 ^ e + a mod 2 ^ e = a" "(b div 2 ^ e) * 2 ^ e + b mod 2 ^ e = b"
    by (rule div_mult_mod_eq)+
  with ab True have "a mod 2 ^ e \<le> b mod 2 ^ e" by (metis add_le_cancel_left)
  with True show ?thesis by (auto simp: round_half_even_def Let_def)
next
  case False
  assume ab: "a \<le> b"
  then have "a div 2 ^ e \<le> b div 2 ^ e" by (rule div_le_mono)
  with False have "a div 2 ^ e + 1 \<le> b div 2 ^ e" by simp
  then have "(a div 2 ^ e + 1) * 2 ^ e \<le> (b div 2 ^ e) * 2 ^ e" by (rule mult_le_mono1)
  with round_half_even_upper [of e a] round_half_even_lower [of b e] show ?thesis
    by linarith
qed

lemma round53_mono: "a \<le> b \<Longrightarrow> round53 a \<le> round53 b"
proof (cases "bit_length a - 53 = bit_length b - 53")
  case True
  assume "a \<le> b"
  with True show ?thesis by (simp add: round53_def round_half_even_mono)
next
  case False
  assume ab: "a \<le> b"
  define ea where "ea = bit_length a - 53"
  define eb where "eb = bit_length b - 53"
  from ab have bl: "bit_length a \<le> bit_length b" by (rule bit_length_mono)
  with False have lt: "bit_length a < bit_length b" and big: "53 < bit_length b" by linarith+
  have b0: "b \<noteq> 0"
  proof
    assume "b = 0"
    with big show False by (simp add: bit_length_0)
  qed
  have "a \<le> 2 ^ (bit_length a - ea) * 2 ^ ea"
    using bit_length_upper [of a] by (simp add: ea_def flip: power_add)
  then have "round_half_even ea a \<le> 2 ^ (bit_length a - ea) * 2 ^ ea"
    by (rule round_half_even_le)
  then have 1: "round53 a \<le> 2 ^ bit_length a"
    by (simp add: round53_def ea_def flip: power_add)
  have "bit_length b - 1 - eb + eb = bit_length b - 1"
    using big by (simp add: eb_def)
  then have eq: "(2::nat) ^ (bit_length b - 1 - eb) * 2 ^ eb = 2 ^ (bit_length b - 1)"
    by (simp only: flip: power_add)
  with bit_length_lower [OF b0] have "(2::nat) ^ (bit_length b - 1 - eb) * 2 ^ eb \<le> b"
    by simp
  then have "(2::nat) ^ (bit_length b - 1 - eb) * 2 ^ eb \<le> round_half_even eb b"
    by (rule round_half_even_ge)
  then have "2 ^ (bit_length b - 1) \<le> round_half_even eb b"
    by (simp only: eq)
  then have 2: "2 ^ (bit_length b - 1) \<le> round53 b"
    by (simp only: round53_def eb_def)
  from lt have "(2::nat) ^ bit_length a \<le> 2 ^ (bit_length b - 1)"
    by (intro power_increasing) simp_all
  with 1 2 show ?thesis by linarith
qed

lemma int_of_product_mono: "m \<le> m' \<Longrightarrow> int_of_product m n \<le> int_of_product m' n"
  unfolding int_of_product_def
  by (intro div_le_mono round53_mono mult_le_mono1)


lemma round53_le_multiple:
  assumes "a \<le> k * 2 ^ j" and "a < 2 ^ (53 + j)"
  shows "round53 a \<le> k * 2 ^ j"
proof -
  define e where "e = bit_length a - 53"
  from assms(2) have "bit_length a \<le> 53 + j" by (rule bit_length_le)
  then have "j = (j - e) + e" by (simp add: e_def)
  then have "(2::nat) ^ j = 2 ^ (j - e) * 2 ^ e" by (metis power_add)
  then have eq: "k * 2 ^ j = (k * 2 ^ (j - e)) * 2 ^ e" by simp
  from assms(1) have "a \<le> (k * 2 ^ (j - e)) * 2 ^ e" by (simp only: eq)
  then have "round_half_even e a \<le> (k * 2 ^ (j - e)) * 2 ^ e" by (rule round_half_even_le)
  then show ?thesis by (simp only: eq round53_def e_def)
qed

lemma int_of_product_le:
  assumes m: "m \<le> double_0_85"
  shows "int_of_product m n \<le> n"
proof -
  define e where "e = bit_length n - 53"
  define q where "q = n div 2 ^ e"
  have "n < 2 ^ bit_length n" by (rule bit_length_upper)
  also have "(2::nat) ^ bit_length n \<le> 2 ^ (53 + e)"
    by (intro power_increasing) (simp_all add: e_def)
  finally have n_less: "n < 2 ^ 53 * 2 ^ e" by (simp only: power_add)
  then have q53: "q < 2 ^ 53" unfolding q_def by (rule less_mult_imp_div_less)
  have qn: "q * 2 ^ e \<le> n" unfolding q_def by simp
  have m53: "m + 2 \<le> 2 ^ 53" using m by (simp add: double_0_85_def)
  have prod: "m * round53 n \<le> (2 ^ 53 * q) * 2 ^ e"
  proof (cases "e = 0")
    case True
    then have "round53 n = n" "q = n"
      by (simp_all add: round53_def q_def round_half_even_exact flip: e_def)
    moreover have "m * n \<le> 2 ^ 53 * n" using m53 by (intro mult_le_mono1) simp
    ultimately show ?thesis using True by simp
  next
    case False
    then have big: "53 < bit_length n" by (simp add: e_def)
    have n0: "n \<noteq> 0"
    proof
      assume "n = 0"
      with big show False by (simp add: bit_length_0)
    qed
    have "bit_length n - 1 = 52 + e" using big by (simp add: e_def)
    with bit_length_lower [OF n0] have "(2::nat) ^ (52 + e) \<le> n" by simp
    then have "2 ^ 52 * 2 ^ e \<le> n" by (simp only: power_add)
    then have q52: "2 ^ 52 \<le> q" unfolding q_def by (simp add: less_eq_div_iff_mult_less_eq)
    have "m \<le> 2 * q" using m53 q52 by simp
    also have "2 * q \<le> (2 ^ 53 - m) * q" using m53 by (intro mult_le_mono1) simp
    finally have "m * q + m \<le> m * q + (2 ^ 53 - m) * q" by simp
    also have "\<dots> = 2 ^ 53 * q" using m53 by (simp flip: add_mult_distrib)
    finally have mq: "m * (q + 1) \<le> 2 ^ 53 * q" by simp
    have "round53 n \<le> (q + 1) * 2 ^ e"
      unfolding round53_def q_def e_def by (rule round_half_even_upper)
    then have "m * round53 n \<le> m * ((q + 1) * 2 ^ e)" by (rule mult_le_mono2)
    also have "\<dots> = (m * (q + 1)) * 2 ^ e" by (simp only: mult.assoc)
    also have "\<dots> \<le> (2 ^ 53 * q) * 2 ^ e" using mq by (rule mult_le_mono1)
    finally show ?thesis .
  qed
  have "(2 ^ 53 * q) * 2 ^ e < (2 ^ 53 * 2 ^ 53) * (2::nat) ^ e"
    using q53 by simp
  also have "\<dots> = 2 ^ (53 + (53 + e))" by (simp only: power_add mult.assoc)
  finally have "m * round53 n < 2 ^ (53 + (53 + e))" using prod by simp
  moreover have "m * round53 n \<le> q * 2 ^ (53 + e)"
    using prod by (simp add: power_add mult_ac)
  ultimately have "round53 (m * round53 n) \<le> q * 2 ^ (53 + e)"
    by (intro round53_le_multiple)
  then have "round53 (m * round53 n) div 2 ^ 53 \<le> q * 2 ^ (53 + e) div 2 ^ 53"
    by (rule div_le_mono)
  also have "q * 2 ^ (53 + e) div 2 ^ 53 = q * 2 ^ e"
    by (simp add: power_add)
  finally show ?thesis using qn by (simp add: int_of_product_def)
qed

lemma length_swap: "length (swap i j xs) = length xs"
  by (simp add: swap_def)

lemma mset_swap_rows: "i < length xs \<Longrightarrow> j < length xs \<Longrightarrow> mset (swap i j xs) = mset xs"
  unfolding swap_def by (rule mset_swap)

lemma shuffle_loop_perm:
  "i < length xs \<Longrightarrow> mset (shuffle_loop rng i xs) = mset xs"
proof (induction i arbitrary: xs)
  case 0
  then show ?case by simp
next
  case (Suc i)
  have j: "rng (Suc i) mod Suc (Suc i) < length xs"
    using Suc.prems by (meson less_trans_Suc mod_less_divisor not_less_eq zero_less_Suc less_Suc_eq_le le_less_trans)
  have "i < length (swap (Suc i) (rng (Suc i) mod Suc (Suc i)) xs)"
    using Suc.prems by (simp add: length_swap)
  then have "mset (shuffle_loop rng i (swap (Suc i) (rng (Suc i) mod Suc (Suc i)) xs))
      = mset (swap (Suc i) (rng (Suc i) mod Suc (Suc i)) xs)"
    by (rule Suc.IH)
  also have "\<dots> = mset xs" using Suc.prems j by (rule mset_swap_rows)
  finally show ?case by simp
qed

lemma mset_shuffle: "mset (shuffle rng xs) = mset xs"
proof (cases xs)
  case Nil
  then show ?thesis by (simp add: shuffle_def)
next
  case (Cons x ys)
  then have "length xs - 1 < length xs" by simp
  then show ?thesis unfolding shuffle_def by (rule shuffle_loop_perm)
qed

lemma length_shuffle: "length (shuffle rng xs) = length xs"
  using mset_shuffle [of rng xs] by (metis size_mset)

lemma shuffle_id: "shuffle_loop id i xs = xs"
  by (induction i) (simp_all add: swap_def)

lemma cut_points_ordered:
  "int_of_product double_0_7 n \<le> int_of_product double_0_85 n"
  "int_of_product double_0_85 n \<le> n"
  by (simp_all add: int_of_product_mono int_of_product_le double_0_7_def double_0_85_def)

lemma split_rows_eq:
  "split_rows Y = Inr (take (int_of_product double_0_7 (length Y)) Y,
     drop (int_of_product double_0_7 (length Y)) (take (int_of_product double_0_85 (length Y)) Y),
     drop (int_of_product double_0_85 (length Y)) Y)"
  by (simp add: split_rows_def np_split_def py_slice_def)

lemma three_blocks_append:
  "i \<le> j \<Longrightarrow> take i ys @ drop i (take j ys) @ drop j ys = ys"
proof -
  assume "i \<le> j"
  then have "take i ys = take i (take j ys)" by (simp add: min_def)
  then have "take i ys @ drop i (take j ys) = take j ys" by (simp only: append_take_drop_id)
  then show ?thesis by (metis append.assoc append_take_drop_id)
qed

lemma split_on_not_empty: "split_on sep s \<noteq> []"
  by (induction s) (auto split: list.splits)

lemma split_on_prefix:
  "sep \<notin> set a \<Longrightarrow> split_on sep (a @ sep # rest) = a # split_on sep rest"
  by (induction a) (auto split: list.splits)

lemma join_split_on: "join [sep] (split_on sep s) = s"
proof (induction s)
  case Nil
  then show ?case by simp
next
  case (Cons c cs)
  obtain piece pieces where sp: "split_on sep cs = piece # pieces"
    using split_on_not_empty [of sep cs] by (cases "split_on sep cs") auto
  show ?case
  proof (cases "c = sep")
    case True
    with Cons sp show ?thesis by simp
  next
    case False
    with Cons sp show ?thesis by (cases pieces) auto
  qed
qed

lemma numeric_features_eq:
  "numeric_features = [''length'', ''diameter'', ''height'', ''whole_weight'', ''shucked_weight'',
      ''viscera_weight'', ''shell_weight'']"
  by (simp add: numeric_features_def feature_columns_names_def)


lemma fit_InrD:
  assumes "fit df = Inr p"
  shows "df \<noteq> []"
    and "numeric_columns p = map (\<lambda>name. fit_column (map (numeric_column name) df)) numeric_features"
    and "categories p = sort (remdups (map category df))"
    and "observed (numeric_columns p) \<noteq> []"
  using assms by (auto simp: fit_def Let_def split: if_splits)

lemma onehot_unknown: "v \<notin> set cats \<Longrightarrow> onehot cats v = replicate (length cats) 0"
  by (induction cats) (auto simp: onehot_def)



lemma observed_all_Some: "observed (map Some xs) = xs"
  by (induction xs) auto


lemma fit_column_observed:
  "observed col \<noteq> [] \<Longrightarrow>
   fit_column col = Some \<lparr>imputer_statistic = median (observed col),
     scaler_mean = mean (map (impute (median (observed col))) col),
     scaler_scale = (if sqrt (variance (map (impute (median (observed col))) col)) = 0 then 1
                     else sqrt (variance (map (impute (median (observed col))) col)))\<rparr>"
  by (simp add: fit_column_def Let_def)


lemma kept_cells_all:
  "length fs = length ns \<Longrightarrow>
   concat (map (\<lambda>(f, name). case f of None \<Rightarrow> []
        | Some cf \<Rightarrow> [transform_cell cf (numeric_column name r)]) (zip (map Some fs) ns))
     = map (\<lambda>(cf, name). transform_cell cf (numeric_column name r)) (zip fs ns)"
  by (induction fs ns rule: list_induct2) auto




lemma map2_rows:
  "map (\<lambda>(y, row). y # map Some row) (zip (map rings df) (map (transform_row p) df))
     = map (\<lambda>r. rings r # map Some (transform_row p r)) df"
  by (induction df) auto

lemma apply_transforms_dense:
  "fit df = Inr p \<Longrightarrow> \<not> sparse_output p \<Longrightarrow>
   apply_transforms df = Inr (map (\<lambda>r. rings r # map Some (transform_row p r)) df)"
  using fit_InrD(1) [of df p]
  by (simp add: apply_transforms_def fit_transform_def transform_fitted_def np_concatenate_def
      map2_rows)

lemma apply_transforms_sparse:
  "fit df = Inr p \<Longrightarrow> sparse_output p \<Longrightarrow> apply_transforms df = Inl ValueError"
  using fit_InrD(1) [of df p]
  by (simp add: apply_transforms_def fit_transform_def transform_fitted_def np_concatenate_def)

lemma apply_transforms_InrD:
  assumes "apply_transforms df = Inr X"
  shows "\<exists>p. fit df = Inr p \<and> \<not> sparse_output p
     \<and> X = map (\<lambda>r. rings r # map Some (transform_row p r)) df"
proof (cases "fit df")
  case (Inl e)
  with assms show ?thesis by (simp add: apply_transforms_def fit_transform_def)
next
  case (Inr p)
  show ?thesis
  proof (cases "sparse_output p")
    case True
    with Inr assms show ?thesis by (simp add: apply_transforms_sparse)
  next
    case False
    with Inr assms show ?thesis by (simp add: apply_transforms_dense)
  qed
qed



lemma numeric_column_fields:
  "numeric_column ''length'' = length_col"
  "numeric_column ''diameter'' = diameter"
  "numeric_column ''height'' = height"
  "numeric_column ''whole_weight'' = whole_weight"
  "numeric_column ''shucked_weight'' = shucked_weight"
  "numeric_column ''viscera_weight'' = viscera_weight"
  "numeric_column ''shell_weight'' = shell_weight"
  by (rule ext, simp add: numeric_column_def)+





lemmas tr_defs = apply_transforms_def fit_transform_def fit_def transform_fitted_def
  transform_row_def numeric_part_def numeric_features_eq numeric_column_def fit_column_def
  median_def mean_def variance_def impute_def transform_cell_def category_def onehot_def
  np_concatenate_def Let_def

lemmas ex_defs = abalone_M_def abalone_F_def abalone_no_length_def

lemma fit_M_F: "fit [abalone_M, abalone_F] = Inr fitted_M_F"
  by (simp add: tr_defs ex_defs fitted_M_F_def numeral_eq_Suc)

lemma apply_M_F: "apply_transforms [abalone_M, abalone_F]
  = Inr [[Some 15, Some (-1), Some (-1), Some (-1), Some (-1), Some (-1), Some (-1), Some (-1), Some 0, Some 1],
         [Some 7, Some 1, Some 1, Some 1, Some 1, Some 1, Some 1, Some 1, Some 1, Some 0]]"
  by (simp add: tr_defs ex_defs)

section \<open>The claims\<close>

subsection \<open>Claims about the input-data argument\<close>

text \<open>
  C8 (as amended). For every \<^verbatim>\<open>--input-data\<close> argument in which the bucket is the
  third piece between slashes, that is of the form \<open>a/b/bucket/key\<close> with no slash in
  \<open>a\<close>, \<open>b\<close> and \<open>bucket\<close> (as in \<^verbatim>\<open>s3://bucket/key\<close>, where \<open>a\<close> is
  \<^verbatim>\<open>s3:\<close> and \<open>b\<close> is empty), the downloader uses \<open>bucket\<close> as the bucket name and
  everything after the following slash, slashes included, as the object key.
\<close>

theorem bucket_and_key_of_uri:
  assumes "CHR ''/'' \<notin> set a" and "CHR ''/'' \<notin> set b" and "CHR ''/'' \<notin> set bucket"
  shows "bucket_and_key (a @ ''/'' @ b @ ''/'' @ bucket @ ''/'' @ key) = Inr (bucket, key)"
proof -
  have "split_on CHR ''/'' (a @ ''/'' @ b @ ''/'' @ bucket @ ''/'' @ key)
      = a # b # bucket # split_on CHR ''/'' key"
    using assms by (simp add: split_on_prefix)
  then show ?thesis by (simp add: bucket_and_key_def join_split_on)
qed

theorem bucket_and_key_of_uri_witness:
  "CHR ''/'' \<notin> set ''s3:'' \<and> CHR ''/'' \<notin> set [] \<and> CHR ''/'' \<notin> set ''my-bucket''
   \<and> bucket_and_key ''s3://my-bucket/data/abalone.csv''
       = Inr (''my-bucket'', ''data/abalone.csv'')"
  using bucket_and_key_of_uri [of "''s3:''" "[]" "''my-bucket''" "''data/abalone.csv''"]
  by simp

text \<open>
  C8 (as stated) fails for an argument with a single slash between scheme and bucket: the
  third piece is then the first piece of the key.
\<close>

theorem bucket_and_key_counterexample:
  "bucket_and_key (''s3'' @ ''/'' @ ''my-bucket'' @ ''/'' @ join ''/'' [''data'', ''abalone.csv''])
     = Inr (''data'', ''abalone.csv'')
   \<and> bucket_and_key (''s3'' @ ''/'' @ ''my-bucket'' @ ''/'' @ join ''/'' [''data'', ''abalone.csv''])
     \<noteq> Inr (''my-bucket'', join ''/'' [''data'', ''abalone.csv''])"
  by (simp add: bucket_and_key_def)

subsection \<open>Claims about the feature transformer\<close>




text \<open>
  C5. If a transformer fitted on a table \<open>F\<close> is applied to a table containing a row whose
  category (its \<^verbatim>\<open>sex\<close> value, or the placeholder for a missing one) did not occur in
  \<open>F\<close>, the call returns a matrix, no error, and the one-hot part of that row's output
  consists of zeros only.
\<close>

theorem unknown_category_all_zero:
  assumes "fit F = Inr p" and "r \<in> set T" and "category r \<notin> set (map category F)"
  shows "(\<exists>M. snd (transform (Some p) T) = Inr M \<and> rows_of M = map (transform_row p) T)
     \<and> transform_row p r = numeric_part p r @ replicate (length (categories p)) 0"
proof -
  from assms(2) have "T \<noteq> []" by auto
  then have "\<exists>M. snd (transform (Some p) T) = Inr M \<and> rows_of M = map (transform_row p) T"
    by (simp add: transform_def transform_fitted_def)
  moreover have "category r \<notin> set (categories p)"
    using assms(1,3) by (simp add: fit_InrD(3))
  then have "onehot (categories p) (category r) = replicate (length (categories p)) 0"
    by (rule onehot_unknown)
  ultimately show ?thesis by (simp add: transform_row_def)
qed

theorem unknown_category_all_zero_witness:
  "fit [abalone_M, abalone_F] = Inr fitted_M_F
   \<and> abalone_no_length \<in> set [abalone_no_length]
   \<and> category abalone_no_length \<notin> set (map category [abalone_M, abalone_F])
   \<and> (\<exists>M. snd (transform (Some fitted_M_F) [abalone_no_length]) = Inr M
          \<and> rows_of M = map (transform_row fitted_M_F) [abalone_no_length])
   \<and> transform_row fitted_M_F abalone_no_length
       = numeric_part fitted_M_F abalone_no_length @ replicate (length (categories fitted_M_F)) 0"
proof -
  have h1: "fit [abalone_M, abalone_F] = Inr fitted_M_F" by (rule fit_M_F)
  have h2: "abalone_no_length \<in> set [abalone_no_length]" by simp
  have h3: "category abalone_no_length \<notin> set (map category [abalone_M, abalone_F])"
    by (simp add: category_def ex_defs)
  from unknown_category_all_zero [OF h1 h2 h3] h1 h2 h3 show ?thesis by blast
qed




text \<open>
  C9 (as amended). Whenever the transformed matrix exists and every numeric column has at
  least one observed value, each of its rows is: the label of the input row; then the
  seven transformed numeric features in schema order (length, diameter, height, whole
  weight, shucked weight, viscera weight, shell weight), each transformed with the fit of
  its own column; then the one-hot columns, one per category, in strictly ascending order
  of the categories.
\<close>

theorem transformed_matrix_layout:
  assumes X: "apply_transforms df = Inr X"
    and obs: "\<forall>name \<in> set numeric_features. observed (map (numeric_column name) df) \<noteq> []"
    and i: "i < length df"
  shows "\<exists>p f1 f2 f3 f4 f5 f6 f7.
     fit df = Inr p
     \<and> fit_column (map length_col df) = Some f1
     \<and> fit_column (map diameter df) = Some f2
     \<and> fit_column (map height df) = Some f3
     \<and> fit_column (map whole_weight df) = Some f4
     \<and> fit_column (map shucked_weight df) = Some f5
     \<and> fit_column (map viscera_weight df) = Some f6
     \<and> fit_column (map shell_weight df) = Some f7
     \<and> sorted_wrt (<) (categories p) \<and> set (categories p) = set (map category df)
     \<and> X ! i = rings (df ! i) # map Some
         ([transform_cell f1 (length_col (df ! i)), transform_cell f2 (diameter (df ! i)),
           transform_cell f3 (height (df ! i)), transform_cell f4 (whole_weight (df ! i)),
           transform_cell f5 (shucked_weight (df ! i)), transform_cell f6 (viscera_weight (df ! i)),
           transform_cell f7 (shell_weight (df ! i))]
          @ onehot (categories p) (category (df ! i)))"
proof -
  from X obtain p where p: "fit df = Inr p"
    and Xeq: "X = map (\<lambda>r. rings r # map Some (transform_row p r)) df"
    using apply_transforms_InrD by blast
  have some: "\<exists>f. fit_column (map (numeric_column name) df) = Some f"
    if "name \<in> set numeric_features" for name
    using obs that by (simp add: fit_column_observed)
  obtain f1 f2 f3 f4 f5 f6 f7 where f:
    "fit_column (map length_col df) = Some f1"
    "fit_column (map diameter df) = Some f2"
    "fit_column (map height df) = Some f3"
    "fit_column (map whole_weight df) = Some f4"
    "fit_column (map shucked_weight df) = Some f5"
    "fit_column (map viscera_weight df) = Some f6"
    "fit_column (map shell_weight df) = Some f7"
    using some [of "''length''"] some [of "''diameter''"] some [of "''height''"]
      some [of "''whole_weight''"] some [of "''shucked_weight''"] some [of "''viscera_weight''"]
      some [of "''shell_weight''"]
    by (auto simp: numeric_features_eq numeric_column_fields)
  have cols: "numeric_columns p = [Some f1, Some f2, Some f3, Some f4, Some f5, Some f6, Some f7]"
    using fit_InrD(2) [OF p] f by (simp add: numeric_features_eq numeric_column_fields)
  have cats: "categories p = sort (remdups (map category df))" using p by (rule fit_InrD(3))
  have "sorted_wrt (<) (categories p)"
    unfolding cats by (simp add: strict_sorted_iff)
  moreover have "set (categories p) = set (map category df)" unfolding cats by simp
  moreover have "numeric_part p r = [transform_cell f1 (length_col r), transform_cell f2 (diameter r),
           transform_cell f3 (height r), transform_cell f4 (whole_weight r),
           transform_cell f5 (shucked_weight r), transform_cell f6 (viscera_weight r),
           transform_cell f7 (shell_weight r)]" for r
    by (simp add: numeric_part_def cols numeric_features_eq numeric_column_fields)
  then have "X ! i = rings (df ! i) # map Some
         ([transform_cell f1 (length_col (df ! i)), transform_cell f2 (diameter (df ! i)),
           transform_cell f3 (height (df ! i)), transform_cell f4 (whole_weight (df ! i)),
           transform_cell f5 (shucked_weight (df ! i)), transform_cell f6 (viscera_weight (df ! i)),
           transform_cell f7 (shell_weight (df ! i))]
          @ onehot (categories p) (category (df ! i)))"
    using i by (simp add: Xeq transform_row_def)
  ultimately show ?thesis using p f by blast
qed

theorem transformed_matrix_layout_witness:
  "apply_transforms [abalone_M, abalone_F] =
     Inr [[Some 15, Some (-1), Some (-1), Some (-1), Some (-1), Some (-1), Some (-1), Some (-1),
          Some 0, Some 1],
         [Some 7, Some 1, Some 1, Some 1, Some 1, Some 1, Some 1, Some 1, Some 1, Some 0]]
   \<and> 0 < length [abalone_M, abalone_F]
   \<and> (\<exists>p f1 f2 f3 f4 f5 f6 f7.
     fit [abalone_M, abalone_F] = Inr p
     \<and> fit_column (map length_col [abalone_M, abalone_F]) = Some f1
     \<and> fit_column (map diameter [abalone_M, abalone_F]) = Some f2
     \<and> fit_column (map height [abalone_M, abalone_F]) = Some f3
     \<and> fit_column (map whole_weight [abalone_M, abalone_F]) = Some f4
     \<and> fit_column (map shucked_weight [abalone_M, abalone_F]) = Some f5
     \<and> fit_column (map viscera_weight [abalone_M, abalone_F]) = Some f6
     \<and> fit_column (map shell_weight [abalone_M, abalone_F]) = Some f7
     \<and> sorted_wrt (<) (categories p) \<and> set (categories p) = set (map category [abalone_M, abalone_F])
     \<and> [[Some 15, Some (-1), Some (-1), Some (-1), Some (-1), Some (-1), Some (-1), Some (-1),
          Some 0, Some 1],
         [Some 7, Some 1, Some 1, Some 1, Some 1, Some 1, Some 1, Some 1, Some 1, Some 0]] ! 0 = rings ([abalone_M, abalone_F] ! 0) # map Some
         ([transform_cell f1 (length_col ([abalone_M, abalone_F] ! 0)), transform_cell f2 (diameter ([abalone_M, abalone_F] ! 0)),
           transform_cell f3 (height ([abalone_M, abalone_F] ! 0)), transform_cell f4 (whole_weight ([abalone_M, abalone_F] ! 0)),
           transform_cell f5 (shucked_weight ([abalone_M, abalone_F] ! 0)), transform_cell f6 (viscera_weight ([abalone_M, abalone_F] ! 0)),
           transform_cell f7 (shell_weight ([abalone_M, abalone_F] ! 0))]
          @ onehot (categories p) (category ([abalone_M, abalone_F] ! 0))))"
proof -
  have h2: "\<forall>name \<in> set numeric_features.
         observed (map (numeric_column name) [abalone_M, abalone_F]) \<noteq> []"
    by (simp add: numeric_features_eq numeric_column_def ex_defs)
  have h3: "0 < length [abalone_M, abalone_F]" by simp
  from transformed_matrix_layout [OF apply_M_F h2 h3] apply_M_F h3 show ?thesis by blast
qed

text \<open>
  C9 (as stated) fails when a numeric column has no observed value: the imputer discards
  the column, and the row has the label, six numeric cells and the one-hot cell.
\<close>

theorem transformed_matrix_layout_counterexample:
  "apply_transforms [abalone_no_length]
     = Inr [[Some 9, Some 0, Some 0, Some 0, Some 0, Some 0, Some 0, Some 1]]"
  by (simp add: tr_defs ex_defs)

subsection \<open>Claims about the splitter\<close>

text \<open>
  C2 (as amended). For every matrix \<open>X\<close> and every outcome of the shuffle, the split
  succeeds and the three blocks have sizes \<open>c\<^sub>1\<close>, \<open>c\<^sub>2 - c\<^sub>1\<close> and \<open>n - c\<^sub>2\<close>, where
  \<open>n\<close> is the number of rows and \<open>c\<^sub>1 = int(0.7 * n)\<close>, \<open>c\<^sub>2 = int(0.85 * n)\<close> are
  computed in double precision as the script does; the cut points satisfy
  \<open>c\<^sub>1 \<le> c\<^sub>2 \<le> n\<close>, so the three sizes add up to \<open>n\<close>.
\<close>

theorem split_block_sizes:
  "\<exists>train validation test.
     shuffle_and_split rng X = Inr (train, validation, test)
     \<and> length train = int_of_product double_0_7 (length X)
     \<and> length validation =
         int_of_product double_0_85 (length X) - int_of_product double_0_7 (length X)
     \<and> length test = length X - int_of_product double_0_85 (length X)
     \<and> int_of_product double_0_7 (length X) \<le> int_of_product double_0_85 (length X)
     \<and> int_of_product double_0_85 (length X) \<le> length X"
proof -
  define Y where "Y = shuffle rng X"
  define i where "i = int_of_product double_0_7 (length Y)"
  define j where "j = int_of_product double_0_85 (length Y)"
  have n: "length Y = length X" unfolding Y_def by (rule length_shuffle)
  have ij: "i \<le> j" and jn: "j \<le> length Y"
    unfolding i_def j_def by (rule cut_points_ordered)+
  have eq: "shuffle_and_split rng X = Inr (take i Y, drop i (take j Y), drop j Y)"
    unfolding shuffle_and_split_def i_def j_def Y_def by (rule split_rows_eq)
  have "length (take i Y) = i" using ij jn by simp
  moreover have "length (drop i (take j Y)) = j - i" using jn by simp
  moreover have "length (drop j Y) = length Y - j" by simp
  ultimately show ?thesis using eq ij jn unfolding i_def j_def n by blast
qed

text \<open>
  C2 (as stated) fails at \<open>n = 90\<close>: the double product \<open>0.7 * 90\<close> rounds to
  \<open>62.99999999999999\<close>, so the train block has 62 rows and the validation block 14,
  while the exact floors give 63 and 13.
\<close>

theorem split_block_sizes_counterexample:
  "map_sum id (map_prod length (map_prod length length))
     (shuffle_and_split id (replicate 90 (0::nat))) = Inr (62, 14, 14)
   \<and> \<lfloor>(7 / 10 :: rat) * 90\<rfloor> = 63
   \<and> \<lfloor>(17 / 20 :: rat) * 90\<rfloor> - \<lfloor>(7 / 10 :: rat) * 90\<rfloor> = 13"
proof -
  have "int_of_product double_0_7 90 = 62" "int_of_product double_0_85 90 = 76"
    by (simp_all add: int_of_product_def round53_def round_half_even_def double_0_7_def
        double_0_85_def bit_length.simps Let_def)
  then have "map_sum id (map_prod length (map_prod length length))
     (shuffle_and_split id (replicate 90 (0::nat))) = Inr (62, 14, 14)"
    by (simp add: shuffle_and_split_def shuffle_def shuffle_id split_rows_eq)
  moreover have "\<lfloor>(7 / 10 :: rat) * 90\<rfloor> = 63" by simp
  moreover have "\<lfloor>(17 / 20 :: rat) * 90\<rfloor> = 76" by (rule floor_unique) simp_all
  ultimately show ?thesis by simp
qed

text \<open>
  C3. For every matrix and every outcome of the shuffle, the split succeeds and the rows
  of train, validation and test together are exactly the input rows, each as often as it
  occurs in the input; in particular the row counts add up to the input row count.
\<close>

theorem split_is_permutation:
  "\<exists>train validation test.
     shuffle_and_split rng X = Inr (train, validation, test)
     \<and> mset (train @ validation @ test) = mset X
     \<and> length train + length validation + length test = length X"
proof -
  define Y where "Y = shuffle rng X"
  define i where "i = int_of_product double_0_7 (length Y)"
  define j where "j = int_of_product double_0_85 (length Y)"
  have ij: "i \<le> j" unfolding i_def j_def by (rule cut_points_ordered)
  have eq: "shuffle_and_split rng X = Inr (take i Y, drop i (take j Y), drop j Y)"
    unfolding shuffle_and_split_def i_def j_def Y_def by (rule split_rows_eq)
  have app: "take i Y @ drop i (take j Y) @ drop j Y = Y" using ij by (rule three_blocks_append)
  then have "mset (take i Y @ drop i (take j Y) @ drop j Y) = mset X"
    by (simp only: Y_def mset_shuffle)
  moreover have "length (take i Y) + length (drop i (take j Y)) + length (drop j Y) = length X"
    using arg_cong [OF app, of length] by (simp add: Y_def length_shuffle)
  ultimately show ?thesis using eq by blast
qed

text \<open>
  C10. The split step returns three blocks for every matrix, whatever its number of rows:
  it has no failing branch. For the empty matrix all three blocks are empty; for a
  one-row matrix train and validation are empty and test holds the row.
\<close>

theorem split_small_inputs:
  "(\<exists>train validation test. shuffle_and_split rng X = Inr (train, validation, test))
   \<and> shuffle_and_split rng [] = Inr ([], [], [])
   \<and> shuffle_and_split rng [x] = Inr ([], [], [x])"
proof -
  have "int_of_product double_0_7 1 = 0" "int_of_product double_0_85 1 = 0"
    by (simp_all add: int_of_product_def round53_def round_half_even_def double_0_7_def
        double_0_85_def bit_length.simps Let_def)
  then have "shuffle_and_split rng [x] = Inr ([], [], [x])"
    by (simp add: shuffle_and_split_def shuffle_def split_rows_eq)
  moreover have "shuffle_and_split rng [] = Inr ([], [], [])"
    by (simp add: shuffle_and_split_def shuffle_def split_rows_eq)
  moreover have "\<exists>train validation test. shuffle_and_split rng X = Inr (train, validation, test)"
    by (simp add: shuffle_and_split_def split_rows_eq)
  ultimately show ?thesis by blast
qed

subsection \<open>Claims about the feature-store record\<close>

text \<open>
  C1 is not what the script does. Whatever the table and the time of the run, the record
  passed to \<^verbatim>\<open>put_record\<close> has one entry per declared feature definition, in the same
  order, but its values are the fixed texts \<^verbatim>\<open>String\<close> and \<^verbatim>\<open>11\<close>: neither the raw
  feature values of the run nor its time are in it.
\<close>

theorem put_record_sends_placeholders:
  "map fst (put_record_Record (df_fs df current_time_sec)) = map fst feature_definition
   \<and> map snd (put_record_Record (df_fs df current_time_sec)) = ''String'' # replicate 8 ''11''
   \<and> put_record_Record (df_fs [abalone_M] 1730000000)
       = put_record_Record (df_fs [abalone_F] 1730000060)
   \<and> map_of (put_record_Record (df_fs [abalone_M] 1730000000)) ''sex'' = Some ''String''
   \<and> sex abalone_M = Some ''M''"
  by (simp add: put_record_Record_def feature_definition_def numeral_eq_Suc abalone_M_def)

end
